theory Spec2Isabelle
  imports Complex_Main
begin

section \<open>Python text and its primitives\<close>

text \<open>
  The script \<^verbatim>\<open>notebooks/readcsv.py\<close> works on Python \<^verbatim>\<open>str\<close> values. A text is
  modelled as a \<^typ>\<open>string\<close>, one \<^typ>\<open>char\<close> per character, read as ASCII: the
  character classes below (white space, identifier characters) are CPython's on the
  code points below 128, and characters from 128 on belong to none of them.
\<close>

abbreviation NL :: char where "NL \<equiv> CHR 0x0A"
abbreviation DQUOTE :: char where "DQUOTE \<equiv> CHR 0x22"
abbreviation COMMA :: char where "COMMA \<equiv> CHR '',''"

datatype py_error =
  FileNotFoundError | ValueError | TypeError | IndexError | AttributeError |
  AssertionError | ZeroDivisionError

text \<open>\<^verbatim>\<open>s.replace(old, new)\<close> for a one-character \<^verbatim>\<open>old\<close>.\<close>

definition str_replace :: "char \<Rightarrow> string \<Rightarrow> string \<Rightarrow> string" where
  "str_replace old new s = concat (map (\<lambda>c. if c = old then new else [c]) s)"

text \<open>\<^verbatim>\<open>s.rstrip(chars)\<close>: every trailing character that occurs in \<^verbatim>\<open>chars\<close> goes.\<close>

definition str_rstrip :: "string \<Rightarrow> string \<Rightarrow> string" where
  "str_rstrip chars s = rev (dropWhile (\<lambda>c. c \<in> set chars) (rev s))"

text \<open>
  \<^verbatim>\<open>s.split(sep)\<close> for a one-character separator: the pieces between the separators,
  empty pieces kept, so that the empty text splits into one empty piece.
\<close>

fun str_split :: "char \<Rightarrow> string \<Rightarrow> string list" where
  "str_split sep [] = [[]]"
| "str_split sep (c # cs) =
     (if c = sep then [] # str_split sep cs
      else (case str_split sep cs of [] \<Rightarrow> [[c]] | w # ws \<Rightarrow> (c # w) # ws))"

text \<open>White space as \<^verbatim>\<open>str.split()\<close> and \<^verbatim>\<open>str.isspace()\<close> see it, below 128.\<close>

definition isspace :: "char \<Rightarrow> bool" where
  "isspace c = (let n = (of_char c :: nat) in (9 \<le> n \<and> n \<le> 13) \<or> (28 \<le> n \<and> n \<le> 32))"

text \<open>
  \<^verbatim>\<open>s.isascii()\<close>. On an ASCII text the character classes of this theory are
  Python's.
\<close>

definition str_isascii :: "string \<Rightarrow> bool" where
  "str_isascii s = list_all (\<lambda>c. (of_char c :: nat) < 128) s"

text \<open>
  \<^verbatim>\<open>s.split()\<close> with no separator: the maximal runs of characters that are not white
  space, none of them empty.
\<close>

function str_split_ws :: "string \<Rightarrow> string list" where
  "str_split_ws s =
     (case dropWhile isspace s of
        [] \<Rightarrow> []
      | c # cs \<Rightarrow> takeWhile (\<lambda>x. \<not> isspace x) (c # cs) # str_split_ws (dropWhile (\<lambda>x. \<not> isspace x) cs))"
  by pat_completeness auto
termination
proof (relation "measure length")
  show "wf (measure length)" by simp
next
  fix s :: string and c cs
  assume "dropWhile isspace s = c # cs"
  then have "length (c # cs) \<le> length s"
    by (metis length_dropWhile_le)
  moreover have "length (dropWhile (\<lambda>x. \<not> isspace x) cs) \<le> length cs"
    by (rule length_dropWhile_le)
  ultimately show "(dropWhile (\<lambda>x. \<not> isspace x) cs, s) \<in> measure length"
    by simp
qed

declare str_split_ws.simps [simp del]

definition str_startswith :: "string \<Rightarrow> string \<Rightarrow> bool" where
  "str_startswith s p = (take (length p) s = p)"

text \<open>\<^verbatim>\<open>s.isidentifier()\<close> on ASCII: a letter or underscore, then letters, digits, underscores.\<close>

definition isalpha :: "char \<Rightarrow> bool" where
  "isalpha c = (let n = (of_char c :: nat) in (65 \<le> n \<and> n \<le> 90) \<or> (97 \<le> n \<and> n \<le> 122))"

definition isdigit :: "char \<Rightarrow> bool" where
  "isdigit c = (let n = (of_char c :: nat) in 48 \<le> n \<and> n \<le> 57)"

definition str_isidentifier :: "string \<Rightarrow> bool" where
  "str_isidentifier s =
     (case s of
        [] \<Rightarrow> False
      | c # cs \<Rightarrow> (isalpha c \<or> c = CHR ''_'') \<and>
                 list_all (\<lambda>x. isalpha x \<or> isdigit x \<or> x = CHR ''_'') cs)"

text \<open>\<^verbatim>\<open>keyword.kwlist\<close> of Python 3 (3.7 and later) and \<^verbatim>\<open>keyword.iskeyword\<close>.\<close>

definition kwlist :: "string list" where
  "kwlist =
     [''False'', ''None'', ''True'', ''and'', ''as'', ''assert'', ''async'', ''await'',
      ''break'', ''class'', ''continue'', ''def'', ''del'', ''elif'', ''else'', ''except'',
      ''finally'', ''for'', ''from'', ''global'', ''if'', ''import'', ''in'', ''is'',
      ''lambda'', ''nonlocal'', ''not'', ''or'', ''pass'', ''raise'', ''return'', ''try'',
      ''while'', ''with'', ''yield'']"

definition iskeyword :: "string \<Rightarrow> bool" where
  "iskeyword s = (s \<in> set kwlist)"

text \<open>
  \<^verbatim>\<open>xs[i]\<close> on a list or tuple. Positions run from \<open>0\<close>; the index \<open>- k\<close> is the
  \<open>k\<close>-th position from the end; any other index raises \<^verbatim>\<open>IndexError\<close>.
\<close>

definition getitem :: "'a list \<Rightarrow> int \<Rightarrow> py_error + 'a" where
  "getitem xs i =
     (if 0 \<le> i \<and> i < int (length xs) then Inr (xs ! nat i)
      else if i < 0 \<and> - int (length xs) \<le> i then Inr (xs ! nat (int (length xs) + i))
      else Inl IndexError)"

section \<open>Text files\<close>

text \<open>
  A file system maps a path to the text of the file there, as a text-mode stream
  delivers it (decoded, line ends as \<^verbatim>\<open>\n\<close>). Opening a missing path for reading
  raises \<^verbatim>\<open>FileNotFoundError\<close>; the other failures of \<^verbatim>\<open>open\<close> (permissions, a
  directory, an undecodable byte) have no counterpart here. An open file is the text
  not read yet.
\<close>

type_synonym filesystem = "string \<rightharpoonup> string"

text \<open>\<^verbatim>\<open>f.readline()\<close>: the text up to and with the next newline, and what is left.\<close>

fun readline :: "string \<Rightarrow> string \<times> string" where
  "readline [] = ([], [])"
| "readline (c # cs) =
     (if c = NL then ([c], cs) else (case readline cs of (l, r) \<Rightarrow> (c # l, r)))"

lemma readline_rest_shorter: "s \<noteq> [] \<Longrightarrow> readline s = (l, r) \<Longrightarrow> length r < length s"
proof (induction s arbitrary: l r)
  case Nil
  then show ?case by simp
next
  case (Cons c cs)
  show ?case
  proof (cases "cs = []")
    case True
    with Cons.prems show ?thesis by (auto split: if_splits)
  next
    case False
    with Cons show ?thesis by (fastforce split: if_splits prod.splits)
  qed
qed

text \<open>\<^verbatim>\<open>f.readlines()\<close>: \<^verbatim>\<open>readline\<close> until the end of the file.\<close>

function readlines :: "string \<Rightarrow> string list" where
  "readlines s = (if s = [] then [] else (case readline s of (l, r) \<Rightarrow> l # readlines r))"
  by pat_completeness auto
termination
  by (relation "measure length") (auto dest: readline_rest_shorter [OF _ sym])

declare readlines.simps [simp del]

section \<open>Named tuples\<close>

text \<open>
  \<^verbatim>\<open>collections.namedtuple(typename, field_names)\<close> with a text for \<^verbatim>\<open>field_names\<close>:
  commas become blanks, the text is split at white space, and the names are checked.
  Every failed check raises \<^verbatim>\<open>ValueError\<close>. The class it returns is its name and
  its \<^verbatim>\<open>_fields\<close>.
\<close>

record namedtuple_type =
  tname :: string
  tfields :: "string list"

text \<open>
  The two checking loops of \<^verbatim>\<open>namedtuple\<close>: the first over the type name and the
  field names, the second over the field names with the set of names seen so far.
\<close>

fun identifiers_ok :: "string list \<Rightarrow> bool" where
  "identifiers_ok [] = True"
| "identifiers_ok (name # names) =
     (if \<not> str_isidentifier name then False
      else if iskeyword name then False
      else identifiers_ok names)"

fun names_fresh :: "string list \<Rightarrow> string list \<Rightarrow> bool" where
  "names_fresh seen [] = True"
| "names_fresh seen (name # names) =
     (if str_startswith name ''_'' then False
      else if name \<in> set seen then False
      else names_fresh (name # seen) names)"

definition namedtuple :: "string \<Rightarrow> string \<Rightarrow> py_error + namedtuple_type" where
  "namedtuple typename field_names =
     (let names = str_split_ws (str_replace COMMA '' '' field_names) in
      if \<not> identifiers_ok (typename # names) then Inl ValueError
      else if \<not> names_fresh [] names then Inl ValueError
      else Inr \<lparr>tname = typename, tfields = names\<rparr>)"

text \<open>
  An instance is its class and its values. Calling the class with the wrong number of
  arguments raises \<^verbatim>\<open>TypeError\<close>.
\<close>

record row =
  cls :: namedtuple_type
  elems :: "string list"

definition new_row :: "namedtuple_type \<Rightarrow> string list \<Rightarrow> py_error + row" where
  "new_row T args =
     (if length args = length (tfields T) then Inr \<lparr>cls = T, elems = args\<rparr> else Inl TypeError)"

text \<open>\<^verbatim>\<open>len(r)\<close> and \<^verbatim>\<open>r[i]\<close> are the tuple's.\<close>

definition row_len :: "row \<Rightarrow> nat" where
  "row_len r = length (elems r)"

definition row_getitem :: "row \<Rightarrow> int \<Rightarrow> py_error + string" where
  "row_getitem r i = getitem (elems r) i"

text \<open>
  \<^verbatim>\<open>r.name\<close> for a field name: the class holds, for each field, a getter of the value at
  the field's position. \<open>None\<close> says that \<^verbatim>\<open>name\<close> is no field of the class (what
  Python finds then, a method of \<^verbatim>\<open>tuple\<close> or nothing, is not modelled).
\<close>

fun index_of :: "'a \<Rightarrow> 'a list \<Rightarrow> nat option" where
  "index_of x [] = None"
| "index_of x (y # ys) = (if x = y then Some 0 else map_option Suc (index_of x ys))"

definition row_getattr :: "row \<Rightarrow> string \<Rightarrow> (py_error + string) option" where
  "row_getattr r name = map_option (\<lambda>i. row_getitem r (int i)) (index_of name (tfields (cls r)))"

section \<open>The script\<close>

text \<open>
  A list comprehension whose element expression may raise: the first exception ends
  it, and no list is built.
\<close>

fun comprehension :: "('a \<Rightarrow> py_error + 'b) \<Rightarrow> 'a list \<Rightarrow> py_error + 'b list" where
  "comprehension f [] = Inr []"
| "comprehension f (x # xs) =
     (case f x of
        Inl e \<Rightarrow> Inl e
      | Inr y \<Rightarrow> (case comprehension f xs of Inl e \<Rightarrow> Inl e | Inr ys \<Rightarrow> Inr (y # ys)))"

text \<open>The expression of \<^verbatim>\<open>read_csv\<close>'s comprehension that turns a line into arguments.\<close>

definition line_words :: "string \<Rightarrow> string list" where
  "line_words line = str_split COMMA (str_rstrip [NL] (str_replace DQUOTE [] line))"

definition read_csv :: "filesystem \<Rightarrow> string \<Rightarrow> py_error + row list" where
  "read_csv fs fname =
     (case fs fname of
        None \<Rightarrow> Inl FileNotFoundError
      | Some contents \<Rightarrow>
          (case readline contents of
             (first, rest) \<Rightarrow>
               (let header = str_replace DQUOTE [] first in
                case namedtuple ''Row'' header of
                  Inl e \<Rightarrow> Inl e
                | Inr Row \<Rightarrow> comprehension (\<lambda>line. new_row Row (line_words line)) (readlines rest))))"

definition example_contents :: string where
  "example_contents =
     ''first_name,second_name,age,height,gender\<newline>Fred,Bloggs,59,1.95,male\<newline>Peter,Bloggs,15,1.86,male\<newline>Ann,Somebody,32,1.76,female\<newline>Ada,Lovelace,46,1.67,female\<newline>''"

text \<open>\<^verbatim>\<open>create_example_csv_file\<close> returns nothing; here it returns the file system it leaves.\<close>

definition create_example_csv_file :: "filesystem \<Rightarrow> string \<Rightarrow> filesystem" where
  "create_example_csv_file fs fname = fs(fname \<mapsto> example_contents)"

definition test_filename :: string where
  "test_filename = ''trivial_test_example.csv''"

text \<open>
  \<^verbatim>\<open>test_read_csv\<close>: a failed \<^verbatim>\<open>assert\<close> raises \<^verbatim>\<open>AssertionError\<close>; a test that
  passes leaves the file it wrote (what it prints is left out).
\<close>

definition test_read_csv :: "filesystem \<Rightarrow> py_error + filesystem" where
  "test_read_csv fs =
     (let fs' = create_example_csv_file fs test_filename in
      case read_csv fs' test_filename of
        Inl e \<Rightarrow> Inl e
      | Inr data \<Rightarrow>
          if length data \<noteq> 4 then Inl AssertionError
          else (case getitem data 0 of
                  Inl e \<Rightarrow> Inl e
                | Inr d0 \<Rightarrow>
                    if row_len d0 \<noteq> 5 then Inl AssertionError
                    else (case row_getattr d0 ''age'' of
                            None \<Rightarrow> Inl AttributeError
                          | Some (Inl e) \<Rightarrow> Inl e
                          | Some (Inr age) \<Rightarrow>
                              if age \<noteq> ''59'' then Inl AssertionError
                              else (case row_getitem d0 2 of
                                      Inl e \<Rightarrow> Inl e
                                    | Inr v \<Rightarrow>
                                        if v \<noteq> ''59'' then Inl AssertionError
                                        else Inr fs'))))"

section \<open>The mean height\<close>

text \<open>
  The script's last lines convert the \<^verbatim>\<open>height\<close> texts with \<^verbatim>\<open>float\<close>, add them, divide
  by the number of rows and print the quotient with \<^verbatim>\<open>%4.2f\<close>. Here a number is the
  rational that its decimal text denotes and the arithmetic is exact: Python rounds
  every conversion and every sum to a binary floating-point number, and that rounding
  is not modelled.

  \<^verbatim>\<open>float(s)\<close> is modelled for a plain decimal: an optional sign, digits, and
  optionally a point and digits, with a digit somewhere. \<open>None\<close> stands for every other
  text: Python raises \<^verbatim>\<open>ValueError\<close> for it, or reads a notation left out here
  (an exponent, underscores, white space around the number, \<^verbatim>\<open>inf\<close>, \<^verbatim>\<open>nan\<close>).
\<close>

definition digit_value :: "char \<Rightarrow> nat" where
  "digit_value c = of_char c - 48"

definition py_float :: "string \<Rightarrow> rat option" where
  "py_float s =
     (let (negative, body) =
            (case s of
               [] \<Rightarrow> (False, s)
             | c # cs \<Rightarrow>
                 if c = CHR ''-'' then (True, cs)
                 else if c = CHR ''+'' then (False, cs)
                 else (False, s));
          whole = takeWhile isdigit body;
          rest = dropWhile isdigit body;
          fraction = (case rest of
                        [] \<Rightarrow> Some []
                      | c # cs \<Rightarrow> if c = CHR ''.'' \<and> list_all isdigit cs then Some cs else None)
      in case fraction of
           None \<Rightarrow> None
         | Some decimals \<Rightarrow>
             if whole = [] \<and> decimals = [] then None
             else Some ((if negative then - 1 else 1) *
                        (of_nat (foldl (\<lambda>n c. 10 * n + digit_value c) 0 (whole @ decimals)) /
                         10 ^ length decimals)))"

text \<open>
  The comprehension \<^verbatim>\<open>[float(row.height) for row in table]\<close>. A table without a
  \<^verbatim>\<open>height\<close> field raises \<^verbatim>\<open>AttributeError\<close>; \<open>None\<close> is a height outside the
  decimals above.
\<close>

fun heights :: "row list \<Rightarrow> (py_error + rat list) option" where
  "heights [] = Some (Inr [])"
| "heights (r # table) =
     (case row_getattr r ''height'' of
        None \<Rightarrow> Some (Inl AttributeError)
      | Some (Inl e) \<Rightarrow> Some (Inl e)
      | Some (Inr h) \<Rightarrow>
          (case py_float h of
             None \<Rightarrow> None
           | Some x \<Rightarrow>
               (case heights table of
                  None \<Rightarrow> None
                | Some (Inl e) \<Rightarrow> Some (Inl e)
                | Some (Inr xs) \<Rightarrow> Some (Inr (x # xs)))))"

text \<open>\<^verbatim>\<open>mean_height = sum([...]) / len(table)\<close>; an empty table divides by zero.\<close>

definition mean_height :: "row list \<Rightarrow> (py_error + rat) option" where
  "mean_height table =
     (case heights table of
        None \<Rightarrow> None
      | Some (Inl e) \<Rightarrow> Some (Inl e)
      | Some (Inr xs) \<Rightarrow>
          if length table = 0 then Some (Inl ZeroDivisionError)
          else Some (Inr (sum_list xs / of_nat (length table))))"

text \<open>
  \<^verbatim>\<open>"%4.2f" % x\<close>: the nearest number with two decimals, a tie going to the even one,
  written with its sign, at least one digit before the point, and padded with blanks on
  the left to four characters.
\<close>

definition round_half_even :: "rat \<Rightarrow> int" where
  "round_half_even x =
     (let n = \<lfloor>x\<rfloor>; d = x - of_int n
      in if d < 1 / 2 then n else if 1 / 2 < d then n + 1 else if even n then n else n + 1)"

function str_of_nat :: "nat \<Rightarrow> string" where
  "str_of_nat n =
     (if n < 10 then [char_of (48 + n)] else str_of_nat (n div 10) @ [char_of (48 + n mod 10)])"
  by pat_completeness auto
termination
  by (relation "measure id") auto

declare str_of_nat.simps [simp del]

definition format_4_2f :: "rat \<Rightarrow> string" where
  "format_4_2f x =
     (let n = nat \<bar>round_half_even (x * 100)\<bar>;
          s = (if x < 0 then ''-'' else []) @ str_of_nat (n div 100) @ ''.'' @
              str_of_nat (n mod 100 div 10) @ str_of_nat (n mod 10)
      in replicate (4 - length s) CHR '' '' @ s)"

section \<open>The parts of a read, named\<close>

text \<open>
  What \<^verbatim>\<open>read_csv\<close> computes on the way, as functions of the file's text: the
  variable \<^verbatim>\<open>header\<close>, the names \<^verbatim>\<open>namedtuple\<close> takes from it, and the lines that
  \<^verbatim>\<open>readlines\<close> returns after the first.
\<close>

definition header_text :: "string \<Rightarrow> string" where
  "header_text contents = str_replace DQUOTE [] (fst (readline contents))"

definition header_fields :: "string \<Rightarrow> string list" where
  "header_fields contents = str_split_ws (str_replace COMMA '' '' (header_text contents))"

definition data_lines :: "string \<Rightarrow> string list" where
  "data_lines contents = readlines (snd (readline contents))"

text \<open>The names \<^verbatim>\<open>namedtuple\<close> accepts as fields.\<close>

definition valid_names :: "string list \<Rightarrow> bool" where
  "valid_names names =
     (list_all (\<lambda>n. str_isidentifier n \<and> \<not> iskeyword n \<and> \<not> str_startswith n ''_'') names \<and>
      distinct names)"

text \<open>A well-formed file: a header of valid names, and as many words on each line.\<close>

definition well_formed :: "string \<Rightarrow> bool" where
  "well_formed contents =
     (valid_names (header_fields contents) \<and>
      list_all (\<lambda>l. length (line_words l) = length (header_fields contents)) (data_lines contents))"

section \<open>The specification's wording\<close>

text \<open>
  The specification describes two steps in its own words; they are written down here
  as it words them, to be compared with what the code computes. Its field-name list is
  the first line with the double quotes removed, split at the commas; its data lines
  lose exactly one trailing newline.
\<close>

definition spec_field_names :: "string \<Rightarrow> string list" where
  "spec_field_names contents = str_split COMMA (str_replace DQUOTE [] (fst (readline contents)))"

definition strip_one_newline :: "string \<Rightarrow> string" where
  "strip_one_newline s = (if s \<noteq> [] \<and> last s = NL then butlast s else s)"

section \<open>Lines\<close>

lemma str_replace_delete: "str_replace c [] s = filter (\<lambda>x. x \<noteq> c) s"
  by (induction s) (auto simp: str_replace_def)

lemma readline_append: "readline s = (l, r) \<Longrightarrow> l @ r = s"
  by (induction s arbitrary: l r) (auto split: if_splits prod.splits)

lemma readline_shape:
  "readline s = (l, r) \<Longrightarrow> \<exists>x. NL \<notin> set x \<and> (l = x @ [NL] \<or> (l = x \<and> r = []))"
proof (induction s arbitrary: l r)
  case Nil
  then show ?case by simp
next
  case (Cons c cs)
  show ?case
  proof (cases "c = NL")
    case True
    with Cons.prems have "l = [] @ [NL]" by simp
    then show ?thesis by (metis empty_iff list.set(1))
  next
    case False
    obtain l' r' where lr: "readline cs = (l', r')" by (cases "readline cs")
    with Cons.prems False have l: "l = c # l'" and r: "r = r'" by simp_all
    from Cons.IH [OF lr] obtain x where x: "NL \<notin> set x" "l' = x @ [NL] \<or> (l' = x \<and> r' = [])"
      by blast
    with False have "NL \<notin> set (c # x) \<and> (l = (c # x) @ [NL] \<or> (l = c # x \<and> r = []))"
      by (auto simp: l r)
    then show ?thesis by blast
  qed
qed

lemma readlines_Nil: "readlines [] = []"
  by (simp add: readlines.simps)

lemma concat_readlines: "concat (readlines s) = s"
proof (induction s rule: readlines.induct)
  case (1 s)
  show ?case
  proof (cases "s = []")
    case True
    then show ?thesis by (simp add: readlines_Nil)
  next
    case False
    obtain l r where lr: "readline s = (l, r)" by (cases "readline s")
    from "1.IH" [OF False lr [symmetric]] have "concat (readlines r) = r" .
    with False lr readline_append [OF lr] show ?thesis
      by (subst readlines.simps) simp
  qed
qed

lemma readlines_shape:
  "l \<in> set (readlines s) \<Longrightarrow> \<exists>x. NL \<notin> set x \<and> (l = x @ [NL] \<or> (l = x \<and> x \<noteq> []))"
proof (induction s rule: readlines.induct)
  case (1 s)
  show ?case
  proof (cases "s = []")
    case True
    with "1.prems" show ?thesis by (simp add: readlines_Nil)
  next
    case False
    obtain l' r where lr: "readline s = (l', r)" by (cases "readline s")
    from False lr have rl: "readlines s = l' # readlines r"
      by (subst readlines.simps) simp
    show ?thesis
    proof (cases "l = l'")
      case True
      from readline_shape [OF lr] obtain x where x: "NL \<notin> set x" "l' = x @ [NL] \<or> (l' = x \<and> r = [])"
        by blast
      from readline_append [OF lr] False have "l' = x \<and> r = [] \<Longrightarrow> x \<noteq> []" by auto
      with x True show ?thesis by blast
    next
      case False
      with "1.prems" rl have "l \<in> set (readlines r)" by simp
      with "1.IH" [OF \<open>s \<noteq> []\<close> lr [symmetric]] show ?thesis .
    qed
  qed
qed

lemma file_is_its_lines: "fst (readline contents) @ concat (data_lines contents) = contents"
  by (cases "readline contents") (simp add: data_lines_def concat_readlines readline_append)

lemma dropWhile_none: "c \<notin> set ys \<Longrightarrow> dropWhile (\<lambda>x. x = c) ys = ys"
  by (cases ys) auto

lemma rstrip_newline_free: "NL \<notin> set x \<Longrightarrow> str_rstrip [NL] x = x"
  using dropWhile_none [of NL "rev x"] by (simp add: str_rstrip_def)

lemma rstrip_newline_terminated: "NL \<notin> set x \<Longrightarrow> str_rstrip [NL] (x @ [NL]) = x"
  using dropWhile_none [of NL "rev x"] by (simp add: str_rstrip_def)

lemma strip_one_newline_terminated: "strip_one_newline (x @ [NL]) = x"
  by (simp add: strip_one_newline_def)

lemma strip_one_newline_free: "NL \<notin> set x \<Longrightarrow> strip_one_newline x = x"
  by (cases x rule: rev_cases) (auto simp: strip_one_newline_def)

section \<open>What \<^verbatim>\<open>namedtuple\<close> and \<^verbatim>\<open>read_csv\<close> return\<close>

lemma identifiers_ok_iff:
  "identifiers_ok names = list_all (\<lambda>n. str_isidentifier n \<and> \<not> iskeyword n) names"
  by (induction names) auto

lemma names_fresh_iff:
  "names_fresh seen names =
     (list_all (\<lambda>n. \<not> str_startswith n ''_'' \<and> n \<notin> set seen) names \<and> distinct names)"
  by (induction names arbitrary: seen) (auto simp: list_all_iff)

lemma Row_is_identifier: "str_isidentifier ''Row'' \<and> \<not> iskeyword ''Row''"
  by (simp add: str_isidentifier_def iskeyword_def kwlist_def isalpha_def isdigit_def)

lemma namedtuple_Row:
  "namedtuple ''Row'' h =
     (let names = str_split_ws (str_replace COMMA '' '' h) in
      if valid_names names then Inr \<lparr>tname = ''Row'', tfields = names\<rparr> else Inl ValueError)"
  using Row_is_identifier
  by (auto simp: namedtuple_def Let_def valid_names_def identifiers_ok_iff names_fresh_iff list_all_iff)

lemma comprehension_new_row:
  "comprehension (\<lambda>l. new_row T (f l)) ls =
     (if list_all (\<lambda>l. length (f l) = length (tfields T)) ls
      then Inr (map (\<lambda>l. \<lparr>cls = T, elems = f l\<rparr>) ls) else Inl TypeError)"
  by (induction ls) (auto simp: new_row_def)

lemma read_csv_Some:
  assumes "fs fname = Some contents"
  shows "read_csv fs fname =
     (if \<not> valid_names (header_fields contents) then Inl ValueError
      else if list_all (\<lambda>l. length (line_words l) = length (header_fields contents)) (data_lines contents)
      then Inr (map (\<lambda>l. \<lparr>cls = \<lparr>tname = ''Row'', tfields = header_fields contents\<rparr>, elems = line_words l\<rparr>)
                  (data_lines contents))
      else Inl TypeError)"
  using assms
  by (simp add: read_csv_def namedtuple_Row comprehension_new_row header_fields_def header_text_def
      data_lines_def Let_def split: prod.splits)

lemma index_of_nth: "distinct xs \<Longrightarrow> i < length xs \<Longrightarrow> index_of (xs ! i) xs = Some i"
proof (induction xs arbitrary: i)
  case Nil
  then show ?case by simp
next
  case (Cons x xs)
  show ?case
  proof (cases i)
    case 0
    then show ?thesis by simp
  next
    case (Suc j)
    with Cons.prems have "xs ! j \<noteq> x" by auto
    with Cons Suc show ?thesis by simp
  qed
qed

section \<open>The example file\<close>

lemma example_header_fields:
  "header_fields example_contents = [''first_name'', ''second_name'', ''age'', ''height'', ''gender'']"
  by code_simp

lemma example_data_lines:
  "data_lines example_contents =
     [''Fred,Bloggs,59,1.95,male\<newline>'', ''Peter,Bloggs,15,1.86,male\<newline>'',
      ''Ann,Somebody,32,1.76,female\<newline>'', ''Ada,Lovelace,46,1.67,female\<newline>'']"
  by code_simp

lemma example_valid_names:
  "valid_names [''first_name'', ''second_name'', ''age'', ''height'', ''gender'']"
  by code_simp

lemma example_line_words:
  "line_words ''Fred,Bloggs,59,1.95,male\<newline>'' = [''Fred'', ''Bloggs'', ''59'', ''1.95'', ''male'']"
  "line_words ''Peter,Bloggs,15,1.86,male\<newline>'' = [''Peter'', ''Bloggs'', ''15'', ''1.86'', ''male'']"
  "line_words ''Ann,Somebody,32,1.76,female\<newline>'' = [''Ann'', ''Somebody'', ''32'', ''1.76'', ''female'']"
  "line_words ''Ada,Lovelace,46,1.67,female\<newline>'' = [''Ada'', ''Lovelace'', ''46'', ''1.67'', ''female'']"
  by code_simp+

lemma read_example:
  "read_csv (create_example_csv_file fs fname) fname =
     Inr (map (\<lambda>ws. \<lparr>cls = \<lparr>tname = ''Row'',
                              tfields = [''first_name'', ''second_name'', ''age'', ''height'', ''gender'']\<rparr>,
                       elems = ws\<rparr>)
            [[''Fred'', ''Bloggs'', ''59'', ''1.95'', ''male''],
             [''Peter'', ''Bloggs'', ''15'', ''1.86'', ''male''],
             [''Ann'', ''Somebody'', ''32'', ''1.76'', ''female''],
             [''Ada'', ''Lovelace'', ''46'', ''1.67'', ''female'']])"
proof -
  have "create_example_csv_file fs fname fname = Some example_contents"
    by (simp add: create_example_csv_file_def)
  with read_csv_Some [of "create_example_csv_file fs fname" fname example_contents] show ?thesis
    by (simp add: example_header_fields example_data_lines example_valid_names example_line_words)
qed

lemma example_well_formed: "well_formed example_contents"
  by (simp add: well_formed_def example_header_fields example_data_lines example_valid_names
      example_line_words)

lemma example_first_line:
  "readline example_contents =
     (''first_name,second_name,age,height,gender'' @ [NL],
      ''Fred,Bloggs,59,1.95,male\<newline>Peter,Bloggs,15,1.86,male\<newline>Ann,Somebody,32,1.76,female\<newline>Ada,Lovelace,46,1.67,female\<newline>'')"
  by code_simp

lemma example_mean_height:
  "mean_height
     (map (\<lambda>ws. \<lparr>cls = \<lparr>tname = ''Row'',
                          tfields = [''first_name'', ''second_name'', ''age'', ''height'', ''gender'']\<rparr>,
                   elems = ws\<rparr>)
        [[''Fred'', ''Bloggs'', ''59'', ''1.95'', ''male''],
         [''Peter'', ''Bloggs'', ''15'', ''1.86'', ''male''],
         [''Ann'', ''Somebody'', ''32'', ''1.76'', ''female''],
         [''Ada'', ''Lovelace'', ''46'', ''1.67'', ''female'']]) = Some (Inr (181 / 100))"
  by code_simp

lemma example_heights:
  "py_float ''1.95'' = Some (195 / 100)" "py_float ''1.86'' = Some (186 / 100)"
  "py_float ''1.76'' = Some (176 / 100)" "py_float ''1.67'' = Some (167 / 100)"
  by code_simp+

lemma format_example_mean: "format_4_2f (181 / 100) = ''1.81''"
  by code_simp

lemma str_of_digits: "str_of_nat (Suc 0) = ''1''" "str_of_nat 8 = ''8''"
  by code_simp+

lemma round_near_181:
  assumes "180 + 1 / 2 < y" and "y < 181 + 1 / 2"
  shows "round_half_even y = 181"
proof -
  from assms have "\<lfloor>y\<rfloor> = 180 \<or> \<lfloor>y\<rfloor> = 181"
    by (simp add: floor_eq_iff) linarith
  then show ?thesis
  proof
    assume f: "\<lfloor>y\<rfloor> = 180"
    with assms show ?thesis by (simp add: round_half_even_def Let_def)
  next
    assume f: "\<lfloor>y\<rfloor> = 181"
    with assms show ?thesis by (simp add: round_half_even_def Let_def)
  qed
qed

lemma format_near_1_81:
  assumes "\<bar>x - 181 / 100\<bar> < 1 / 200"
  shows "format_4_2f x = ''1.81''"
proof -
  from assms have "181 / 100 - 1 / 200 < x" and "x < 181 / 100 + 1 / 200"
    by linarith+
  then have "180 + 1 / 2 < x * 100" and "x * 100 < 181 + 1 / 2" and "\<not> x < 0"
    by linarith+
  then show ?thesis
    by (simp add: format_4_2f_def Let_def round_near_181 str_of_digits)
qed

section \<open>More on lines and names\<close>

lemma read_csv_Inr_file: "read_csv fs fname = Inr rows \<Longrightarrow> \<exists>contents. fs fname = Some contents"
  by (cases "fs fname") (simp_all add: read_csv_def)

lemma read_csv_Inr:
  assumes "fs fname = Some contents" and "read_csv fs fname = Inr rows"
  shows "well_formed contents \<and>
    rows = map (\<lambda>l. \<lparr>cls = \<lparr>tname = ''Row'', tfields = header_fields contents\<rparr>, elems = line_words l\<rparr>)
             (data_lines contents)"
  using assms read_csv_Some [of fs fname contents]
  by (simp add: well_formed_def split: if_splits)

lemma split_ws_no_space: "n \<in> set (str_split_ws s) \<Longrightarrow> c \<in> set n \<Longrightarrow> \<not> isspace c"
proof (induction s rule: str_split_ws.induct)
  case (1 s)
  show ?case
  proof (cases "dropWhile isspace s")
    case Nil
    with "1.prems" show ?thesis by (simp add: str_split_ws.simps [of s])
  next
    case (Cons d ds)
    then have sw: "str_split_ws s =
        takeWhile (\<lambda>x. \<not> isspace x) (d # ds) # str_split_ws (dropWhile (\<lambda>x. \<not> isspace x) ds)"
      by (simp add: str_split_ws.simps [of s])
    show ?thesis
    proof (cases "n = takeWhile (\<lambda>x. \<not> isspace x) (d # ds)")
      case True
      with "1.prems"(2) show ?thesis by (auto dest: set_takeWhileD)
    next
      case False
      with "1.prems"(1) sw have "n \<in> set (str_split_ws (dropWhile (\<lambda>x. \<not> isspace x) ds))" by simp
      from "1.IH" [OF Cons this "1.prems"(2)] show ?thesis .
    qed
  qed
qed

lemma isspace_NL: "isspace NL"
  by (simp add: isspace_def)

lemma header_fields_no_newline: "n \<in> set (header_fields contents) \<Longrightarrow> NL \<notin> set n"
  using split_ws_no_space isspace_NL unfolding header_fields_def by blast

lemma line_words_data_line:
  assumes "l \<in> set (readlines s)"
  shows "line_words l = str_split COMMA (strip_one_newline (str_replace DQUOTE [] l)) \<and>
         count_list l NL \<le> 1"
proof -
  from readlines_shape [OF assms] obtain x where
    x: "NL \<notin> set x" "l = x @ [NL] \<or> (l = x \<and> x \<noteq> [])" by blast
  let ?y = "filter (\<lambda>c. c \<noteq> DQUOTE) x"
  from x(1) have y: "NL \<notin> set ?y" by simp
  from x(1) have cx: "count_list x NL = 0" by simp
  from x(2) show ?thesis
  proof
    assume l: "l = x @ [NL]"
    then have "str_replace DQUOTE [] l = ?y @ [NL]" by (simp add: str_replace_delete)
    with l cx show ?thesis
      by (simp add: line_words_def rstrip_newline_terminated [OF y] strip_one_newline_terminated)
  next
    assume l: "l = x \<and> x \<noteq> []"
    then have "str_replace DQUOTE [] l = ?y" by (simp add: str_replace_delete)
    with l cx show ?thesis
      by (simp add: line_words_def rstrip_newline_free [OF y] strip_one_newline_free [OF y])
  qed
qed



section \<open>The field names of a plain header\<close>

lemma split_ws_space: "isspace c \<Longrightarrow> str_split_ws (c # s) = str_split_ws s"
  by (simp add: str_split_ws.simps [of "c # s"] str_split_ws.simps [of s])

lemma split_ws_word:
  "\<not> isspace c \<Longrightarrow>
     str_split_ws (c # s) =
       (c # takeWhile (\<lambda>x. \<not> isspace x) s) # str_split_ws (dropWhile (\<lambda>x. \<not> isspace x) s)"
  by (simp add: str_split_ws.simps [of "c # s"])

lemma str_split_pieces:
  "str_split sep s =
     takeWhile (\<lambda>x. x \<noteq> sep) s #
       (case dropWhile (\<lambda>x. x \<noteq> sep) s of [] \<Rightarrow> [] | c # r \<Rightarrow> str_split sep r)"
  by (induction s) (auto split: list.splits)

lemma str_replace_blank: "str_replace COMMA '' '' s = map (\<lambda>c. if c = COMMA then CHR '' '' else c) s"
  by (induction s) (auto simp: str_replace_def)

lemma isspace_blank: "isspace CHR '' ''"
  by (simp add: isspace_def)

lemma words_of_plain_header:
  "list_all (\<lambda>c. \<not> isspace c) u \<Longrightarrow>
     str_split_ws (str_replace COMMA '' '' u @ [NL]) = filter (\<lambda>w. w \<noteq> []) (str_split COMMA u)"
proof (induction u rule: length_induct)
  case (1 u)
  let ?f = "\<lambda>c. if c = COMMA then CHR '' '' else c"
  let ?ns = "\<lambda>x. \<not> isspace x"
  show ?case
  proof (cases u)
    case Nil
    then show ?thesis
      by (simp add: str_replace_blank split_ws_space isspace_def str_split_ws.simps [of "[]"])
  next
    case (Cons c cs)
    with "1.prems" have cs: "list_all ?ns cs" and c: "\<not> isspace c" by simp_all
    show ?thesis
    proof (cases "c = COMMA")
      case True
      from cs "1.IH" Cons have "str_split_ws (str_replace COMMA '' '' cs @ [NL]) =
          filter (\<lambda>w. w \<noteq> []) (str_split COMMA cs)"
        by simp
      with True Cons show ?thesis
        by (simp add: str_replace_blank split_ws_space isspace_blank)
    next
      case False
      let ?d = "dropWhile (\<lambda>x. x \<noteq> COMMA) cs"
      from cs have tw: "takeWhile ?ns (map ?f cs @ [NL]) = takeWhile (\<lambda>x. x \<noteq> COMMA) cs"
        by (induction cs) (auto simp: isspace_def)
      from cs have dw: "dropWhile ?ns (map ?f cs @ [NL]) = map ?f ?d @ [NL]"
        by (induction cs) (auto simp: isspace_def)
      have "length ?d \<le> length cs" by (rule length_dropWhile_le)
      moreover from cs have "list_all ?ns ?d"
        by (auto simp: list_all_iff dest: set_dropWhileD)
      ultimately have IH: "str_split_ws (str_replace COMMA '' '' ?d @ [NL]) =
          filter (\<lambda>w. w \<noteq> []) (str_split COMMA ?d)"
        using "1.IH" Cons by simp
      have d: "filter (\<lambda>w. w \<noteq> []) (str_split COMMA ?d) =
          filter (\<lambda>w. w \<noteq> []) (case ?d of [] \<Rightarrow> [] | c # r \<Rightarrow> str_split COMMA r)"
      proof (cases ?d)
        case Nil
        show ?thesis unfolding Nil by simp
      next
        case (Cons e r)
        then have "e = COMMA" by (simp add: dropWhile_eq_Cons_conv)
        then show ?thesis unfolding Cons by simp
      qed
      have "str_split COMMA (c # cs) =
          (c # takeWhile (\<lambda>x. x \<noteq> COMMA) cs) # (case ?d of [] \<Rightarrow> [] | c # r \<Rightarrow> str_split COMMA r)"
        using False by (subst str_split_pieces) simp
      moreover have "str_split_ws (str_replace COMMA '' '' (c # cs) @ [NL]) =
          (c # takeWhile (\<lambda>x. x \<noteq> COMMA) cs) # str_split_ws (str_replace COMMA '' '' ?d @ [NL])"
        using False c by (simp add: str_replace_blank split_ws_word tw dw)
      ultimately show ?thesis
        using IH d Cons by simp
    qed
  qed
qed

lemma str_split_not_Nil: "str_split sep s \<noteq> []"
  by (induction s) (auto split: list.splits)

lemma str_split_snoc:
  "c \<noteq> sep \<Longrightarrow>
     str_split sep (s @ [c]) = butlast (str_split sep s) @ [last (str_split sep s) @ [c]]"
proof (induction s)
  case Nil
  then show ?case by simp
next
  case (Cons a s)
  then show ?case
    using str_split_not_Nil [of sep s] str_split_not_Nil [of sep "s @ [c]"]
    by (cases "str_split sep s") (auto split: list.splits)
qed

lemma str_split_chars: "w \<in> set (str_split sep s) \<Longrightarrow> set w \<subseteq> set s"
proof (induction s arbitrary: w)
  case Nil
  then show ?case by simp
next
  case (Cons a s)
  then show ?case
    by (fastforce split: if_splits list.splits)
qed

text \<open>
  The specification's field-name list against the code's, for a header line that ends
  with a newline, holds no white space before it and has no empty entry: the names that
  \<^verbatim>\<open>namedtuple\<close> takes from the header are the specification's comma-separated names
  with the newline taken off the last one. (With white space inside the header the two
  lists differ, as the properties C5 and C9 below show.)
\<close>

lemma plain_header_fields:
  assumes "readline contents = (h @ [NL], rest)"
    and "list_all (\<lambda>c. \<not> isspace c) h"
    and "[] \<notin> set (str_split COMMA (str_replace DQUOTE [] h))"
  shows "header_fields contents = map strip_one_newline (spec_field_names contents)"
proof -
  let ?u = "str_replace DQUOTE [] h"
  let ?P = "str_split COMMA ?u"
  have u: "list_all (\<lambda>c. \<not> isspace c) ?u"
    using assms(2) by (simp add: str_replace_delete list_all_iff)
  have ht: "header_text contents = ?u @ [NL]"
    using assms(1) by (simp add: header_text_def str_replace_delete)
  have "header_fields contents = filter (\<lambda>w. w \<noteq> []) ?P"
    using words_of_plain_header [OF u] by (simp add: header_fields_def ht str_replace_def)
  also have "\<dots> = ?P"
    using assms(3) by (auto simp: filter_id_conv)
  finally have hf: "header_fields contents = ?P" .
  have sp: "spec_field_names contents = butlast ?P @ [last ?P @ [NL]]"
    using assms(1) str_split_snoc [of NL COMMA ?u]
    by (simp add: spec_field_names_def str_replace_delete)
  have nl: "NL \<notin> set w" if "w \<in> set ?P" for w
    using str_split_chars [OF that] u isspace_NL by (auto simp: list_all_iff)
  have "map strip_one_newline (butlast ?P) = butlast ?P"
  proof (rule map_idI)
    fix w
    assume "w \<in> set (butlast ?P)"
    then have "w \<in> set ?P" by (rule in_set_butlastD)
    from nl [OF this] show "strip_one_newline w = w" by (rule strip_one_newline_free)
  qed
  then have "map strip_one_newline (spec_field_names contents) = butlast ?P @ [last ?P]"
    by (simp add: sp strip_one_newline_terminated)
  with hf str_split_not_Nil [of COMMA ?u] show ?thesis
    by simp
qed

section \<open>The properties of the specification\<close>

text \<open>
  C1. The example file is the header \<^verbatim>\<open>first_name,second_name,age,height,gender\<close> and
  the four data rows that \<^verbatim>\<open>create_example_csv_file\<close> writes. Reading it with
  \<^verbatim>\<open>read_csv\<close> returns 4 records; record 0 has 5 fields; its field \<^verbatim>\<open>age\<close>, read by
  name, and its field at index 2 are both the text \<^verbatim>\<open>59\<close>. These are the assertions of
  \<^verbatim>\<open>test_read_csv\<close>, which therefore passes on every file system.
\<close>

theorem example_file_read:
  "\<exists>data d0. read_csv (create_example_csv_file fs fname) fname = Inr data \<and> length data = 4 \<and>
     getitem data 0 = Inr d0 \<and> row_len d0 = 5 \<and>
     row_getattr d0 ''age'' = Some (Inr ''59'') \<and> row_getitem d0 2 = Inr ''59'' \<and>
     test_read_csv fs = Inr (create_example_csv_file fs test_filename)"
  by (simp add: read_example test_read_csv_def getitem_def row_len_def row_getattr_def
      row_getitem_def Let_def)

text \<open>
  C2. For every well-formed file (a header of valid names, and as many words on every
  data line) \<^verbatim>\<open>read_csv\<close> returns its records in the order of the data lines: the values
  of record \<open>k\<close> are the words of data line \<open>k\<close>, and the first line followed by the data
  lines is the file. Every record has exactly the header's field names, in the header's
  order, hence as many fields as the header.
\<close>

theorem well_formed_file_read:
  assumes "fs fname = Some contents" and "well_formed contents"
  shows "\<exists>rows. read_csv fs fname = Inr rows \<and>
     map elems rows = map line_words (data_lines contents) \<and>
     fst (readline contents) @ concat (data_lines contents) = contents \<and>
     list_all (\<lambda>r. tfields (cls r) = header_fields contents \<and>
                    row_len r = length (header_fields contents)) rows"
proof -
  let ?rows = "map (\<lambda>l. \<lparr>cls = \<lparr>tname = ''Row'', tfields = header_fields contents\<rparr>, elems = line_words l\<rparr>)
                 (data_lines contents)"
  from assms read_csv_Some [of fs fname contents] have "read_csv fs fname = Inr ?rows"
    by (simp add: well_formed_def)
  moreover have "map elems ?rows = map line_words (data_lines contents)"
    by simp
  moreover from assms(2) have "list_all (\<lambda>r. tfields (cls r) = header_fields contents \<and>
      row_len r = length (header_fields contents)) ?rows"
    by (simp add: well_formed_def list_all_iff row_len_def)
  ultimately show ?thesis
    using file_is_its_lines by blast
qed

theorem well_formed_file_read_witness:
  "\<exists>rows. read_csv (create_example_csv_file Map.empty ''example.csv'') ''example.csv'' = Inr rows \<and>
     map elems rows = map line_words (data_lines example_contents) \<and>
     fst (readline example_contents) @ concat (data_lines example_contents) = example_contents \<and>
     list_all (\<lambda>r. tfields (cls r) = header_fields example_contents \<and>
                    row_len r = length (header_fields example_contents)) rows"
  using well_formed_file_read [of "create_example_csv_file Map.empty ''example.csv''" "''example.csv''"
      example_contents]
  by (simp add: create_example_csv_file_def example_well_formed)

text \<open>
  C3. For every record \<open>r\<close> that \<^verbatim>\<open>read_csv\<close> returns and every field index \<open>i\<close>, with
  \<open>n\<close> the field name at \<open>i\<close>: reading \<open>r\<close> by the name \<open>n\<close> and reading it at the position
  \<open>i\<close> give the same text. (The names of a record are distinct, so the getter of \<open>n\<close> is
  the one for position \<open>i\<close>.)
\<close>

theorem name_and_position_agree:
  assumes "read_csv fs fname = Inr rows" and "r \<in> set rows" and "i < length (tfields (cls r))"
  shows "\<exists>v. row_getitem r (int i) = Inr v \<and> row_getattr r (tfields (cls r) ! i) = Some (Inr v)"
proof -
  from read_csv_Inr_file [OF assms(1)] obtain contents where c: "fs fname = Some contents" ..
  from read_csv_Inr [of fs fname contents rows] c assms(1) assms(2) obtain l where
    wf: "well_formed contents" and l: "l \<in> set (data_lines contents)" and
    r: "r = \<lparr>cls = \<lparr>tname = ''Row'', tfields = header_fields contents\<rparr>, elems = line_words l\<rparr>"
    by auto
  from wf l have len: "length (line_words l) = length (header_fields contents)"
    and dist: "distinct (header_fields contents)"
    by (simp_all add: well_formed_def valid_names_def list_all_iff)
  from assms(3) r have i: "i < length (header_fields contents)" by simp
  from index_of_nth [OF dist i] have "index_of (tfields (cls r) ! i) (tfields (cls r)) = Some i"
    by (simp add: r)
  moreover from i len have "row_getitem r (int i) = Inr (line_words l ! i)"
    by (simp add: row_getitem_def getitem_def r)
  ultimately show ?thesis
    by (simp add: row_getattr_def)
qed

theorem name_and_position_agree_witness:
  "\<exists>v. row_getitem
          \<lparr>cls = \<lparr>tname = ''Row'',
                   tfields = [''first_name'', ''second_name'', ''age'', ''height'', ''gender'']\<rparr>,
            elems = [''Fred'', ''Bloggs'', ''59'', ''1.95'', ''male'']\<rparr> 2 = Inr v \<and>
       row_getattr
          \<lparr>cls = \<lparr>tname = ''Row'',
                   tfields = [''first_name'', ''second_name'', ''age'', ''height'', ''gender'']\<rparr>,
            elems = [''Fred'', ''Bloggs'', ''59'', ''1.95'', ''male'']\<rparr> ''age'' = Some (Inr v)"
  using name_and_position_agree [OF read_example [of Map.empty "''example.csv''"],
      of "\<lparr>cls = \<lparr>tname = ''Row'',
                    tfields = [''first_name'', ''second_name'', ''age'', ''height'', ''gender'']\<rparr>,
            elems = [''Fred'', ''Bloggs'', ''59'', ''1.95'', ''male'']\<rparr>" 2]
  by simp

text \<open>
  C4. For every data line (every line after the header) \<^verbatim>\<open>read_csv\<close> strips exactly one
  trailing newline before it splits the line at the commas: the values of each record
  are the comma-separated pieces of its line without the double quotes and without the
  line's one trailing newline. \<^verbatim>\<open>rstrip\<close> would take every trailing newline, but a line
  that \<^verbatim>\<open>readlines\<close> returns holds at most one newline, its last character; of several
  consecutive newlines in the file the line before them loses only the first, and each
  of the others is a line, and a record, of its own.
\<close>

theorem data_line_loses_one_newline:
  assumes "fs fname = Some contents" and "read_csv fs fname = Inr rows"
  shows "map elems rows =
           map (\<lambda>l. str_split COMMA (strip_one_newline (str_replace DQUOTE [] l))) (data_lines contents) \<and>
         list_all (\<lambda>l. count_list l NL \<le> 1) (data_lines contents)"
proof -
  from read_csv_Inr [of fs fname contents rows] assms
  have "map elems rows = map line_words (data_lines contents)"
    by simp
  with line_words_data_line [of _ "snd (readline contents)"] show ?thesis
    by (simp add: data_lines_def list_all_iff)
qed

lemma read_blank_lines:
  "read_csv [''blank.csv'' \<mapsto> ''a\<newline>x\<newline>\<newline>\<newline>''] ''blank.csv'' =
     Inr [\<lparr>cls = \<lparr>tname = ''Row'', tfields = [''a'']\<rparr>, elems = [''x'']\<rparr>,
          \<lparr>cls = \<lparr>tname = ''Row'', tfields = [''a'']\<rparr>, elems = ['''']\<rparr>,
          \<lparr>cls = \<lparr>tname = ''Row'', tfields = [''a'']\<rparr>, elems = ['''']\<rparr>]"
  by code_simp

theorem data_line_loses_one_newline_witness:
  "map elems
     [\<lparr>cls = \<lparr>tname = ''Row'', tfields = [''a'']\<rparr>, elems = [''x'']\<rparr>,
      \<lparr>cls = \<lparr>tname = ''Row'', tfields = [''a'']\<rparr>, elems = ['''']\<rparr>,
      \<lparr>cls = \<lparr>tname = ''Row'', tfields = [''a'']\<rparr>, elems = ['''']\<rparr>] =
   map (\<lambda>l. str_split COMMA (strip_one_newline (str_replace DQUOTE [] l)))
     (data_lines ''a\<newline>x\<newline>\<newline>\<newline>'') \<and>
   list_all (\<lambda>l. count_list l NL \<le> 1) (data_lines ''a\<newline>x\<newline>\<newline>\<newline>'')"
  using data_line_loses_one_newline [OF _ read_blank_lines, of "''a\<newline>x\<newline>\<newline>\<newline>''"]
  by simp

text \<open>
  C5, as the specification states it: the header line's terminator is not stripped
  before the field-name list is built, so for a header line that ends with a newline
  the last name of the list keeps that newline. The example file refutes it. Its header
  text does end with the newline, and the last name of the specification's comma-split
  list would be \<^verbatim>\<open>gender\<close> with the newline; but the field-name list that \<^verbatim>\<open>namedtuple\<close>
  builds ends with the name \<^verbatim>\<open>gender\<close> alone.
\<close>

theorem header_newline_example:
  "last (header_text example_contents) = NL \<and>
   namedtuple ''Row'' (header_text example_contents) =
     Inr \<lparr>tname = ''Row'', tfields = [''first_name'', ''second_name'', ''age'', ''height'', ''gender'']\<rparr> \<and>
   last [''first_name'', ''second_name'', ''age'', ''height'', ''gender''] = ''gender'' \<and>
   last (spec_field_names example_contents) = ''gender\<newline>''"
  by code_simp

text \<open>
  C5, amended. \<^verbatim>\<open>read_csv\<close> itself does not strip the header line's terminator: for a
  header line that ends with a newline, the text it hands to \<^verbatim>\<open>namedtuple\<close> still ends
  with it. \<^verbatim>\<open>namedtuple\<close> splits that text at the commas and at white space, so no name
  of the field-name list holds a newline, and these names are the field names of every
  record returned.
\<close>

theorem field_names_hold_no_newline:
  assumes "fs fname = Some contents" and "readline contents = (h @ [NL], rest)"
    and "read_csv fs fname = Inr rows"
  shows "last (header_text contents) = NL \<and>
         list_all (\<lambda>n. NL \<notin> set n) (header_fields contents) \<and>
         list_all (\<lambda>r. tfields (cls r) = header_fields contents) rows"
proof -
  from assms(2) have "last (header_text contents) = NL"
    by (simp add: header_text_def str_replace_delete)
  moreover have "list_all (\<lambda>n. NL \<notin> set n) (header_fields contents)"
    using header_fields_no_newline by (auto simp: list_all_iff)
  moreover from read_csv_Inr [of fs fname contents rows] assms(1,3)
  have "list_all (\<lambda>r. tfields (cls r) = header_fields contents) rows"
    by (simp add: list_all_iff)
  ultimately show ?thesis by simp
qed

theorem field_names_hold_no_newline_witness:
  "last (header_text example_contents) = NL \<and>
   list_all (\<lambda>n. NL \<notin> set n) (header_fields example_contents) \<and>
   list_all (\<lambda>r. tfields (cls r) = header_fields example_contents)
     (map (\<lambda>ws. \<lparr>cls = \<lparr>tname = ''Row'',
                          tfields = [''first_name'', ''second_name'', ''age'', ''height'', ''gender'']\<rparr>,
                   elems = ws\<rparr>)
        [[''Fred'', ''Bloggs'', ''59'', ''1.95'', ''male''],
         [''Peter'', ''Bloggs'', ''15'', ''1.86'', ''male''],
         [''Ann'', ''Somebody'', ''32'', ''1.76'', ''female''],
         [''Ada'', ''Lovelace'', ''46'', ''1.67'', ''female'']])"
  using field_names_hold_no_newline [OF _ example_first_line read_example [of Map.empty "''example.csv''"]]
  by (simp add: create_example_csv_file_def)




text \<open>
  C7. Round trip: after \<^verbatim>\<open>create_example_csv_file\<close> has written the example table,
  \<^verbatim>\<open>read_csv\<close> on the same path returns as many records as data lines were written.
  The text written is five lines, each ended by a newline: the header and four data
  lines; four records come back.
\<close>

theorem example_round_trip:
  "\<exists>rows. read_csv (create_example_csv_file fs fname) fname = Inr rows \<and>
     length rows = 4 \<and> count_list example_contents NL = 5 \<and> last example_contents = NL"
  by (simp add: read_example example_contents_def)

text \<open>
  C8. For the four records read back from the example file, the mean of the \<^verbatim>\<open>height\<close>
  field, each height text taken as the number it denotes, is
  \<open>(1.95 + 1.86 + 1.76 + 1.67) / 4 = 1.81\<close> exactly, in exact rational arithmetic, and
  \<^verbatim>\<open>%4.2f\<close> writes it as \<^verbatim>\<open>1.81\<close>. So it writes every number that is less than
  \<open>0.005\<close> away from that mean: rounded to two decimals, a sum that was rounded on the
  way is \<open>1.81\<close> as well.
\<close>

theorem example_mean_height_is_1_81:
  "\<exists>table. read_csv (create_example_csv_file fs fname) fname = Inr table \<and> length table = 4 \<and>
     heights table = Some (Inr [195 / 100, 186 / 100, 176 / 100, 167 / 100]) \<and>
     mean_height table = Some (Inr (181 / 100)) \<and>
     format_4_2f (181 / 100) = ''1.81'' \<and>
     (\<forall>x. \<bar>x - 181 / 100\<bar> < 1 / 200 \<longrightarrow> format_4_2f x = ''1.81'')"
proof -
  let ?table = "map (\<lambda>ws. \<lparr>cls = \<lparr>tname = ''Row'',
                          tfields = [''first_name'', ''second_name'', ''age'', ''height'', ''gender'']\<rparr>,
                   elems = ws\<rparr>)
        [[''Fred'', ''Bloggs'', ''59'', ''1.95'', ''male''],
         [''Peter'', ''Bloggs'', ''15'', ''1.86'', ''male''],
         [''Ann'', ''Somebody'', ''32'', ''1.76'', ''female''],
         [''Ada'', ''Lovelace'', ''46'', ''1.67'', ''female'']]"
  have "heights ?table = Some (Inr [195 / 100, 186 / 100, 176 / 100, 167 / 100])"
    by (simp add: row_getattr_def row_getitem_def getitem_def example_heights)
  with read_example [of fs fname] example_mean_height format_example_mean format_near_1_81
  show ?thesis
    by simp
qed

theorem example_mean_height_is_1_81_witness:
  "\<exists>table. read_csv (create_example_csv_file Map.empty ''example.csv'') ''example.csv'' = Inr table \<and>
     mean_height table = Some (Inr (181 / 100)) \<and>
     format_4_2f (18099999999999998 / 10000000000000000) = ''1.81''"
proof -
  from example_mean_height_is_1_81 [of Map.empty "''example.csv''"] obtain table where
    t: "read_csv (create_example_csv_file Map.empty ''example.csv'') ''example.csv'' = Inr table"
       "mean_height table = Some (Inr (181 / 100))"
    and near: "\<forall>x. \<bar>x - 181 / 100\<bar> < 1 / 200 \<longrightarrow> format_4_2f x = ''1.81''"
    by blast
  have "\<bar>(18099999999999998 / 10000000000000000 :: rat) - 181 / 100\<bar> < 1 / 200"
    by simp
  with near have "format_4_2f (18099999999999998 / 10000000000000000) = ''1.81''"
    by blast
  with t show ?thesis
    by blast
qed

text \<open>
  C9, as the specification states it: \<^verbatim>\<open>read_csv\<close> fails at the header whenever a field
  name taken from the header is not a valid identifier, for example a name that holds a
  space. A header whose first comma-separated entry is \<^verbatim>\<open>first name\<close> refutes it: that
  entry is no identifier, yet the file is read, with the three fields \<^verbatim>\<open>first\<close>,
  \<^verbatim>\<open>name\<close> and \<^verbatim>\<open>age\<close>.
\<close>

theorem header_entry_with_space_example:
  "spec_field_names ''first name,age\<newline>x,y,z\<newline>'' = [''first name'', ''age\<newline>''] \<and>
   \<not> str_isidentifier ''first name'' \<and>
   read_csv [''people.csv'' \<mapsto> ''first name,age\<newline>x,y,z\<newline>''] ''people.csv'' =
     Inr [\<lparr>cls = \<lparr>tname = ''Row'', tfields = [''first'', ''name'', ''age'']\<rparr>,
           elems = [''x'', ''y'', ''z'']\<rparr>]"
  by code_simp

text \<open>
  C9, amended. The field names are the pieces of the header between commas and white
  space. \<^verbatim>\<open>read_csv\<close> fails with \<^verbatim>\<open>ValueError\<close> whenever one of them is not a valid
  identifier, is a keyword or starts with an underscore. It fails in \<^verbatim>\<open>namedtuple\<close>,
  before any data line is read: the hypothesis and the error depend on the first line
  only. (An entry that holds white space does not fail for that; it is several names.
  The header line is taken to be ASCII, so that identifiers and white space are the
  ones Python sees.)
\<close>

theorem invalid_name_fails_at_header:
  assumes "fs fname = Some contents" and "str_isascii (fst (readline contents))"
    and "list_ex (\<lambda>n. \<not> str_isidentifier n \<or> iskeyword n \<or> str_startswith n ''_'')
           (header_fields contents)"
  shows "namedtuple ''Row'' (header_text contents) = Inl ValueError \<and>
         read_csv fs fname = Inl ValueError"
proof -
  from assms(3) have "\<not> valid_names (header_fields contents)"
    by (auto simp: valid_names_def list_all_iff list_ex_iff)
  with assms(1) read_csv_Some [of fs fname contents] show ?thesis
    by (simp add: namedtuple_Row header_fields_def)
qed

lemma keyword_header_file:
  "str_isascii ''name,class\<newline>''"
  "header_fields ''name,class\<newline>Ann,3\<newline>'' = [''name'', ''class'']"
  "iskeyword ''class''"
  by code_simp+

theorem invalid_name_fails_at_header_witness:
  "namedtuple ''Row'' (header_text ''name,class\<newline>Ann,3\<newline>'') = Inl ValueError \<and>
   read_csv [''school.csv'' \<mapsto> ''name,class\<newline>Ann,3\<newline>''] ''school.csv'' = Inl ValueError"
  using invalid_name_fails_at_header [of "[''school.csv'' \<mapsto> ''name,class\<newline>Ann,3\<newline>'']"
      "''school.csv''" "''name,class\<newline>Ann,3\<newline>''"]
  by (simp add: keyword_header_file)




end
